theory Spec2Isabelle
  imports Complex_Main "HOL-Library.Multiset"
begin

section \<open>Numeric helper layer of the POD and Lagrange-multiplier animations\<close>

text \<open>
  The numeric helpers of the repository are pure functions on Python floats and numpy
  arrays. In this development a float is a real number, a one-dimensional array is a list
  of reals and a two-dimensional array is a list of rows. Rounding, overflow, infinities
  and NaN are therefore not part of the model: every statement below is about the exact
  arithmetic that the code denotes. Where Python raises (a division by zero, an index out
  of range, operands whose shapes do not fit), the model returns the error as a value.
\<close>

datatype py_error = ZeroDivisionError | ValueError | IndexError

type_synonym vector = "real list"
type_synonym matrix = "real list list"
type_synonym vec3 = "real \<times> real \<times> real"

subsection \<open>Reordering of the eigen-decomposition (pod\_educational\_3d.py, scene 5)\<close>

text \<open>
  \<^verbatim>\<open>
  eigvals, eigvecs = np.linalg.eigh(cov_3d_matrix)
  order = np.argsort(eigvals)[::-1]
  eigvals = eigvals[order]
  eigvecs = eigvecs[:, order]
  \<close>
  The decomposition itself belongs to numpy; its two results are the inputs of the
  model. \<open>argsort\<close> returns the indices that sort its argument in ascending order;
  here equal values keep the order of their indices. Another order among equal values
  permutes equal eigenvalues only, so the sequence of eigenvalues is the same.
\<close>

definition argsort :: "real list \<Rightarrow> nat list" where
  "argsort xs = sort_key (\<lambda>i. xs ! i) [0..<length xs]"

definition take_along :: "real list \<Rightarrow> nat list \<Rightarrow> py_error + real list" where
  \<comment> \<open>\<^verbatim>\<open>xs[order]\<close>: an index beyond the end raises IndexError.\<close>
  "take_along xs order =
     (if list_all (\<lambda>i. i < length xs) order then Inr (map (\<lambda>i. xs ! i) order)
      else Inl IndexError)"

definition take_columns :: "matrix \<Rightarrow> nat list \<Rightarrow> py_error + matrix" where
  \<comment> \<open>\<^verbatim>\<open>m[:, order]\<close>: the same selection in every row.\<close>
  "take_columns m order =
     (if list_all (\<lambda>row. list_all (\<lambda>i. i < length row) order) m
      then Inr (map (\<lambda>row. map (\<lambda>i. row ! i) order) m)
      else Inl IndexError)"

definition reorder_eigen :: "real list \<Rightarrow> matrix \<Rightarrow> py_error + (real list \<times> matrix)" where
  "reorder_eigen eigvals eigvecs =
     (let order = rev (argsort eigvals) in
      case take_along eigvals order of
        Inl e \<Rightarrow> Inl e
      | Inr vals \<Rightarrow>
          (case take_columns eigvecs order of
             Inl e \<Rightarrow> Inl e
           | Inr vecs \<Rightarrow> Inr (vals, vecs)))"

subsection \<open>Array operations shared by the helpers\<close>

text \<open>
  Python floats raise ZeroDivisionError on a zero divisor; numpy scalars return an
  infinity or NaN instead, which is no real number. Either way the model reports the
  zero divisor as an error value.
\<close>

definition py_div :: "real \<Rightarrow> real \<Rightarrow> py_error + real" where
  "py_div a b = (if b = 0 then Inl ZeroDivisionError else Inr (a / b))"

definition np_clip :: "real \<Rightarrow> real \<Rightarrow> real \<Rightarrow> real" where
  \<comment> \<open>\<^verbatim>\<open>np.clip(x, lo, hi)\<close> is \<^verbatim>\<open>minimum(maximum(x, lo), hi)\<close>.\<close>
  "np_clip x lo hi = min (max x lo) hi"

definition vdot :: "vector \<Rightarrow> vector \<Rightarrow> py_error + real" where
  \<comment> \<open>\<^verbatim>\<open>u @ v\<close> of two one-dimensional arrays.\<close>
  "vdot u v =
     (if length u = length v then Inr (sum_list (map2 (*) u v)) else Inl ValueError)"

definition matvec :: "matrix \<Rightarrow> vector \<Rightarrow> py_error + vector" where
  \<comment> \<open>\<^verbatim>\<open>m @ v\<close>: every row of \<open>m\<close> against \<open>v\<close>.\<close>
  "matvec m v =
     (if list_all (\<lambda>row. length row = length v) m
      then Inr (map (\<lambda>row. sum_list (map2 (*) row v)) m)
      else Inl ValueError)"

definition vecmat :: "vector \<Rightarrow> matrix \<Rightarrow> py_error + vector" where
  \<comment> \<open>\<^verbatim>\<open>v @ m\<close>: \<open>v\<close> against every column of \<open>m\<close>.\<close>
  "vecmat v m =
     (if length m = length v
      then Inr (map (\<lambda>col. sum_list (map2 (*) v col)) (transpose m))
      else Inl ValueError)"

definition matmul :: "matrix \<Rightarrow> matrix \<Rightarrow> py_error + matrix" where
  \<comment> \<open>\<^verbatim>\<open>a @ b\<close>: rows of \<open>a\<close> against columns of \<open>b\<close>.\<close>
  "matmul a b =
     (if list_all (\<lambda>row. length row = length b) a
      then Inr (map (\<lambda>row. map (\<lambda>col. sum_list (map2 (*) row col)) (transpose b)) a)
      else Inl ValueError)"

definition np_diag :: "vector \<Rightarrow> matrix" where
  "np_diag v =
     map (\<lambda>i. map (\<lambda>j. if i = j then v ! i else 0) [0..<length v]) [0..<length v]"

definition np_scale :: "real \<Rightarrow> matrix \<Rightarrow> matrix" where
  \<comment> \<open>\<^verbatim>\<open>c * m\<close> for a scalar \<open>c\<close>.\<close>
  "np_scale c m = map (map (\<lambda>x. c * x)) m"

definition same_shape :: "matrix \<Rightarrow> matrix \<Rightarrow> bool" where
  "same_shape a b = (map length a = map length b)"

text \<open>
  \<^verbatim>\<open>a + b\<close> adds arrays of one shape entry by entry. For operands of different shapes
  numpy either stretches an axis of length one or raises ValueError; such operands are
  outside this model, which returns ValueError for all of them, and no statement below
  is about them.
\<close>

definition np_add :: "matrix \<Rightarrow> matrix \<Rightarrow> py_error + matrix" where
  "np_add a b =
     (if same_shape a b then Inr (map2 (map2 (+)) a b) else Inl ValueError)"

definition scale3 :: "real \<Rightarrow> vec3 \<Rightarrow> vec3" where
  "scale3 c p = (case p of (x, y, z) \<Rightarrow> (c * x, c * y, c * z))"

definition add3 :: "vec3 \<Rightarrow> vec3 \<Rightarrow> vec3" where
  "add3 p q = (case p of (x, y, z) \<Rightarrow> case q of (x', y', z') \<Rightarrow> (x + x', y + y', z + z'))"

subsection \<open>Projected energy (pod\_educational\_2d.py, base\_scenes.py)\<close>

text \<open>
  \<^verbatim>\<open>
  def update_energy(mob, dt=0):
      angle = self.theta_tracker.get_value()
      direction = np.array([np.cos(angle), np.sin(angle)])
      energy = float(np.sum((self.data_points @ direction) ** 2))
      mob.set_value(energy)
  \<close>
  The model returns the value that is stored in the display.
\<close>

definition update_energy :: "matrix \<Rightarrow> real \<Rightarrow> py_error + real" where
  "update_energy data_points angle =
     (let direction = [cos angle, sin angle] in
      case matvec data_points direction of
        Inl e \<Rightarrow> Inl e
      | Inr projections \<Rightarrow> Inr (sum_list (map (\<lambda>p. p\<^sup>2) projections)))"

text \<open>
  \<^verbatim>\<open>
  total_energy = np.sum(np.linalg.norm(samples, axis=1) ** 2) + 1e-6
  def energy_ratio() -> float:
      angle = angle_tracker.get_value()
      direction = np.array([np.cos(angle), np.sin(angle)])
      projections = samples @ direction
      energy = np.sum(projections**2)
      return float(np.clip(energy / total_energy, 0.0, 1.0))
  \<close>
\<close>

definition row_norm :: "vector \<Rightarrow> real" where
  "row_norm row = sqrt (sum_list (map (\<lambda>x. x\<^sup>2) row))"

definition total_energy :: "matrix \<Rightarrow> real" where
  "total_energy samples = sum_list (map (\<lambda>row. (row_norm row)\<^sup>2) samples) + 1 / 1000000"

definition energy_ratio :: "matrix \<Rightarrow> real \<Rightarrow> py_error + real" where
  "energy_ratio samples angle =
     (let direction = [cos angle, sin angle] in
      case matvec samples direction of
        Inl e \<Rightarrow> Inl e
      | Inr projections \<Rightarrow>
          (let energy = sum_list (map (\<lambda>p. p\<^sup>2) projections) in
           case py_div energy (total_energy samples) of
             Inl e \<Rightarrow> Inl e
           | Inr q \<Rightarrow> Inr (np_clip q 0 1)))"

subsection \<open>Covariance construction and quadratic forms (geometry.py)\<close>

definition create_pod_covariance_matrix :: "real \<Rightarrow> real \<Rightarrow> real \<Rightarrow> py_error + matrix" where
  "create_pod_covariance_matrix theta lambda1 lambda2 =
     (let cos_t = cos theta;
          sin_t = sin theta;
          R = [[cos_t, - sin_t], [sin_t, cos_t]];
          Lambda = np_diag [lambda1, lambda2]
      in case matmul R Lambda of
           Inl e \<Rightarrow> Inl e
         | Inr RL \<Rightarrow> matmul RL (transpose R))"

definition quadratic_form_level_set :: "matrix \<Rightarrow> real \<Rightarrow> real \<Rightarrow> real \<Rightarrow> py_error + real" where
  \<comment> \<open>\<^verbatim>\<open>vec @ matrix @ vec - level\<close>, with \<^verbatim>\<open>vec = np.array([x, y])\<close>.\<close>
  "quadratic_form_level_set m level x y =
     (let vec = [x, y] in
      case vecmat vec m of
        Inl e \<Rightarrow> Inl e
      | Inr w \<Rightarrow>
          (case vdot w vec of
             Inl e \<Rightarrow> Inl e
           | Inr v \<Rightarrow> Inr (v - level)))"

definition surface_func :: "real \<Rightarrow> real \<Rightarrow> vec3" where
  \<comment> \<open>The height function inside \<^verbatim>\<open>abstract_landscape_surface\<close>.\<close>
  "surface_func u v =
     (let x = u;
          y = v;
          z_gaussian = 0.8 * exp (- (u\<^sup>2 / 9 + v\<^sup>2 / 4));
          z_wave = 0.4 * sin (0.8 * u) * cos (0.6 * v);
          z = z_gaussian + z_wave
      in (x, y, z))"

subsection \<open>Gradients, interpolation and easing (helpers.py)\<close>

definition gaussian_gradient ::
  "real \<Rightarrow> real \<Rightarrow> real \<times> real \<Rightarrow> real \<Rightarrow> real \<Rightarrow> real \<Rightarrow> py_error + vec3" where
  "gaussian_gradient x y center sigma_x sigma_y amplitude =
     (case center of (cx, cy) \<Rightarrow>
      let dx = x - cx; dy = y - cy in
      case py_div (dx\<^sup>2) (2 * sigma_x\<^sup>2) of
        Inl e \<Rightarrow> Inl e
      | Inr qx \<Rightarrow>
      case py_div (dy\<^sup>2) (2 * sigma_y\<^sup>2) of
        Inl e \<Rightarrow> Inl e
      | Inr qy \<Rightarrow>
      let exp_term = exp (- (qx + qy)); f_val = amplitude * exp_term in
      case py_div (- f_val * dx) (sigma_x\<^sup>2) of
        Inl e \<Rightarrow> Inl e
      | Inr grad_x \<Rightarrow>
      case py_div (- f_val * dy) (sigma_y\<^sup>2) of
        Inl e \<Rightarrow> Inl e
      | Inr grad_y \<Rightarrow> Inr (grad_x, grad_y, 0))"

definition composite_gradient :: "real \<Rightarrow> real \<Rightarrow> py_error + vec3" where
  "composite_gradient x y =
     (case gaussian_gradient x y (0, 0) 3.0 2.0 0.8 of
        Inl e \<Rightarrow> Inl e
      | Inr grad1 \<Rightarrow>
          (let sin_term = 0.4 * sin (0.8 * x) * cos (0.6 * y);
               grad_sin_x = 0.4 * 0.8 * cos (0.8 * x) * cos (0.6 * y);
               grad_sin_y = - 0.4 * 0.6 * sin (0.8 * x) * sin (0.6 * y)
           in Inr (add3 grad1 (grad_sin_x, grad_sin_y, 0))))"

definition lerp_path :: "(real \<Rightarrow> vec3) \<Rightarrow> (real \<Rightarrow> vec3) \<Rightarrow> real \<Rightarrow> real \<Rightarrow> vec3" where
  "lerp_path path_a path_b alpha =
     (\<lambda>t. let point_a = path_a t; point_b = path_b t
          in add3 (scale3 (1 - alpha) point_a) (scale3 alpha point_b))"

definition smooth_step :: "real \<Rightarrow> real \<Rightarrow> real \<Rightarrow> py_error + real" where
  "smooth_step t edge0 edge1 =
     (case py_div (t - edge0) (edge1 - edge0) of
        Inl e \<Rightarrow> Inl e
      | Inr q \<Rightarrow> (let t' = np_clip q 0.0 1.0 in Inr (t' * t' * (3.0 - 2.0 * t'))))"

definition lerp_matrix :: "matrix \<Rightarrow> matrix \<Rightarrow> real \<Rightarrow> py_error + matrix" where
  "lerp_matrix mat_a mat_b alpha = np_add (np_scale (1 - alpha) mat_a) (np_scale alpha mat_b)"

definition numerical_gradient_2d ::
  "(real \<Rightarrow> real \<Rightarrow> real) \<Rightarrow> real \<Rightarrow> real \<Rightarrow> real \<Rightarrow> py_error + vec3" where
  "numerical_gradient_2d func x y h =
     (case py_div (func (x + h) y - func (x - h) y) (2 * h) of
        Inl e \<Rightarrow> Inl e
      | Inr grad_x \<Rightarrow>
          (case py_div (func x (y + h) - func x (y - h)) (2 * h) of
             Inl e \<Rightarrow> Inl e
           | Inr grad_y \<Rightarrow> Inr (grad_x, grad_y, 0)))"

subsection \<open>Notions of the specification\<close>

text \<open>
  The scalar field whose gradient \<open>composite_gradient\<close> is said to be, written as the
  specification writes it, and the height of the rendered surface.
\<close>

definition composite_field :: "real \<Rightarrow> real \<Rightarrow> real" where
  "composite_field x y =
     0.8 * exp (- x\<^sup>2 / (2 * 3\<^sup>2) - y\<^sup>2 / (2 * 2\<^sup>2)) + 0.4 * sin (0.8 * x) * cos (0.6 * y)"

definition surface_height :: "real \<Rightarrow> real \<Rightarrow> real" where
  "surface_height u v = snd (snd (surface_func u v))"

text \<open>
  Square matrices, symmetry and definiteness, with the quadratic form
  \<open>x\<^sup>T M x\<close> written as a double sum over the indices.
\<close>

definition square_matrix :: "nat \<Rightarrow> matrix \<Rightarrow> bool" where
  "square_matrix n m = (length m = n \<and> list_all (\<lambda>row. length row = n) m)"

definition symmetric :: "matrix \<Rightarrow> bool" where
  "symmetric m = (\<forall>i < length m. \<forall>j < length m. m ! i ! j = m ! j ! i)"

definition quadratic_form :: "matrix \<Rightarrow> vector \<Rightarrow> real" where
  "quadratic_form m x = (\<Sum>i < length x. \<Sum>j < length x. x ! i * m ! i ! j * x ! j)"

definition positive_definite :: "matrix \<Rightarrow> bool" where
  "positive_definite m =
     (\<forall>x. length x = length m \<and> (\<exists>i < length x. x ! i \<noteq> 0) \<longrightarrow> 0 < quadratic_form m x)"

definition positive_semidefinite :: "matrix \<Rightarrow> bool" where
  "positive_semidefinite m = (\<forall>x. length x = length m \<longrightarrow> 0 \<le> quadratic_form m x)"

definition indefinite :: "matrix \<Rightarrow> bool" where
  "indefinite m =
     (\<exists>x y. length x = length m \<and> length y = length m \<and>
        quadratic_form m x < 0 \<and> 0 < quadratic_form m y)"

text \<open>
  The covariance matrix as the specification gives it: the product
  \<open>R(\<theta>) \<cdot> diag(\<lambda>\<^sub>1, \<lambda>\<^sub>2) \<cdot> R(\<theta>)\<^sup>T\<close> of the rotation matrix, entry by entry, and
  the same matrix multiplied out.
\<close>

definition rotation_matrix :: "real \<Rightarrow> matrix" where
  "rotation_matrix theta = [[cos theta, - sin theta], [sin theta, cos theta]]"

definition covariance_entry :: "real \<Rightarrow> real \<Rightarrow> real \<Rightarrow> nat \<Rightarrow> nat \<Rightarrow> real" where
  \<comment> \<open>Entry \<open>(i, j)\<close> of \<open>R(\<theta>) \<cdot> diag(\<lambda>\<^sub>1, \<lambda>\<^sub>2) \<cdot> R(\<theta>)\<^sup>T\<close>.\<close>
  "covariance_entry theta lambda1 lambda2 i j =
     (\<Sum>k < 2. \<Sum>l < 2.
        rotation_matrix theta ! i ! k * (if k = l then [lambda1, lambda2] ! k else 0) *
        rotation_matrix theta ! j ! l)"

definition covariance_closed_form :: "real \<Rightarrow> real \<Rightarrow> real \<Rightarrow> matrix" where
  "covariance_closed_form theta lambda1 lambda2 =
     [[lambda1 * (cos theta)\<^sup>2 + lambda2 * (sin theta)\<^sup>2,
       (lambda1 - lambda2) * cos theta * sin theta],
      [(lambda1 - lambda2) * cos theta * sin theta,
       lambda1 * (sin theta)\<^sup>2 + lambda2 * (cos theta)\<^sup>2]]"

text \<open>The blend \<open>(1 - \<alpha>) \<cdot> x + \<alpha> \<cdot> y\<close> of two numbers.\<close>

definition blend :: "real \<Rightarrow> real \<Rightarrow> real \<Rightarrow> real" where
  "blend alpha x y = (1 - alpha) * x + alpha * y"

text \<open>The easing polynomial \<open>3s\<^sup>2 - 2s\<^sup>3\<close> of the specification.\<close>

definition hermite :: "real \<Rightarrow> real" where
  "hermite s = 3 * s\<^sup>2 - 2 * s ^ 3"

text \<open>
  The partial derivatives of the two fields in closed form: of \<open>composite_field\<close> (these
  are the components that \<open>composite_gradient\<close> computes) and of \<open>surface_height\<close>.
\<close>

definition gradient_x :: "real \<Rightarrow> real \<Rightarrow> real" where
  "gradient_x x y =
     - (0.8 * exp (- (x\<^sup>2 / 18 + y\<^sup>2 / 8))) * x / 9 + 0.4 * 0.8 * cos (0.8 * x) * cos (0.6 * y)"

definition gradient_y :: "real \<Rightarrow> real \<Rightarrow> real" where
  "gradient_y x y =
     - (0.8 * exp (- (x\<^sup>2 / 18 + y\<^sup>2 / 8))) * y / 4 - 0.4 * 0.6 * sin (0.8 * x) * sin (0.6 * y)"

definition surface_gradient_x :: "real \<Rightarrow> real \<Rightarrow> real" where
  "surface_gradient_x u v =
     - (0.8 * exp (- (u\<^sup>2 / 9 + v\<^sup>2 / 4))) * (2 * u / 9) + 0.4 * 0.8 * cos (0.8 * u) * cos (0.6 * v)"

definition surface_gradient_y :: "real \<Rightarrow> real \<Rightarrow> real" where
  "surface_gradient_y u v =
     - (0.8 * exp (- (u\<^sup>2 / 9 + v\<^sup>2 / 4))) * (2 * v / 4) - 0.4 * 0.6 * sin (0.8 * u) * sin (0.6 * v)"

section \<open>Properties\<close>

subsection \<open>Properties of the reordering\<close>

lemma set_argsort: "set (argsort xs) = {0..<length xs}"
  by (simp add: argsort_def)

lemma mset_argsort: "mset (argsort xs) = mset [0..<length xs]"
  by (simp add: argsort_def)

lemma sorted_argsort: "sorted (map (\<lambda>i. xs ! i) (argsort xs))"
  unfolding argsort_def by (rule sorted_sort_key)

lemma take_along_argsort:
  "take_along xs (rev (argsort xs)) = Inr (rev (map (\<lambda>i. xs ! i) (argsort xs)))"
  by (simp add: take_along_def list_all_iff set_argsort rev_map)

lemma mset_map_argsort: "mset (map (\<lambda>i. xs ! i) (argsort xs)) = mset xs"
proof -
  have "mset (map (\<lambda>i. xs ! i) (argsort xs)) = image_mset (\<lambda>i. xs ! i) (mset (argsort xs))"
    by simp
  also have "\<dots> = mset (map (\<lambda>i. xs ! i) [0..<length xs])"
    by (simp add: mset_argsort)
  also have "\<dots> = mset xs"
    by (simp add: map_nth)
  finally show ?thesis .
qed

lemma descending_rev_argsort:
  "sorted_wrt (\<lambda>a b. b \<le> a) (rev (map (\<lambda>i. xs ! i) (argsort xs)))"
  using sorted_argsort [of xs] by (simp add: sorted_wrt_rev)

lemma take_columns_argsort:
  assumes "list_all (\<lambda>row. length row = length xs) m"
  shows "take_columns m (rev (argsort xs)) =
    Inr (map (\<lambda>row. map (\<lambda>i. row ! i) (rev (argsort xs))) m)"
  using assms by (simp add: take_columns_def list_all_iff set_argsort)

text \<open>
  Claim C1. Whatever eigenvalues the decomposition returns, after the reordering they
  are in descending order (\<open>\<lambda>\<^sub>1 \<ge> \<lambda>\<^sub>2 \<ge> \<lambda>\<^sub>3\<close> for three of them); they are the
  same eigenvalues as before, and the eigenvector columns are rearranged by the same
  permutation of the indices.
\<close>

theorem reorder_eigen_descending:
  assumes "list_all (\<lambda>row. length row = length eigvals) eigvecs"
  shows "\<exists>vals vecs order.
    reorder_eigen eigvals eigvecs = Inr (vals, vecs) \<and>
    sorted_wrt (\<lambda>a b. b \<le> a) vals \<and>
    mset vals = mset eigvals \<and>
    mset order = mset [0..<length eigvals] \<and>
    vals = map (\<lambda>i. eigvals ! i) order \<and>
    vecs = map (\<lambda>row. map (\<lambda>i. row ! i) order) eigvecs \<and>
    (length eigvals = 3 \<longrightarrow> vals ! 1 \<le> vals ! 0 \<and> vals ! 2 \<le> vals ! 1)"
proof -
  let ?order = "rev (argsort eigvals)"
  let ?vals = "rev (map (\<lambda>i. eigvals ! i) (argsort eigvals))"
  let ?vecs = "map (\<lambda>row. map (\<lambda>i. row ! i) ?order) eigvecs"
  have run: "reorder_eigen eigvals eigvecs = Inr (?vals, ?vecs)"
    by (simp add: reorder_eigen_def take_along_argsort take_columns_argsort [OF assms])
  have desc: "sorted_wrt (\<lambda>a b. b \<le> a) ?vals"
    by (rule descending_rev_argsort)
  have perm: "mset ?vals = mset eigvals"
    using mset_map_argsort [of eigvals] by simp
  have ord: "mset ?order = mset [0..<length eigvals]"
    by (simp add: mset_argsort)
  have sel: "?vals = map (\<lambda>i. eigvals ! i) ?order"
    by (simp add: rev_map)
  have three: "length eigvals = 3 \<longrightarrow> ?vals ! 1 \<le> ?vals ! 0 \<and> ?vals ! 2 \<le> ?vals ! 1"
  proof
    assume len: "length eigvals = 3"
    then have "length ?vals = 3"
      by (simp add: argsort_def)
    with desc show "?vals ! 1 \<le> ?vals ! 0 \<and> ?vals ! 2 \<le> ?vals ! 1"
      by (simp add: sorted_wrt_iff_nth_less)
  qed
  from run desc perm ord sel three show ?thesis
    by blast
qed

theorem reorder_eigen_descending_witness:
  "list_all (\<lambda>row. length row = length [1, 3, 2 :: real])
     [[1, 0, 0], [0, 1, 0], [0, 0, 1 :: real]] \<and>
   (\<exists>vals vecs.
      reorder_eigen [1, 3, 2] [[1, 0, 0], [0, 1, 0], [0, 0, 1]] = Inr (vals, vecs) \<and>
      sorted_wrt (\<lambda>a b. b \<le> a) vals \<and> vals ! 1 \<le> vals ! 0 \<and> vals ! 2 \<le> vals ! 1)"
proof -
  have shape: "list_all (\<lambda>row. length row = length [1, 3, 2 :: real])
      [[1, 0, 0], [0, 1, 0], [0, 0, 1 :: real]]"
    by simp
  have len: "length [1, 3, 2 :: real] = 3"
    by simp
  from reorder_eigen_descending [OF shape] len shape show ?thesis
    by blast
qed

text \<open>The same input, evaluated: the eigenvalues 1, 3, 2 come back as 3, 2, 1.\<close>

lemma reorder_eigen_example:
  "reorder_eigen [1, 3, 2] [[1, 0, 0], [0, 1, 0], [0, 0, 1]]
     = Inr ([3, 2, 1], [[0, 0, 1], [1, 0, 0], [0, 1, 0]])"
proof -
  have ord: "argsort [1, 3, 2] = [0, 2, 1]"
    by (simp add: argsort_def upt_conv_Cons)
  show ?thesis
    by (simp add: reorder_eigen_def take_along_def take_columns_def ord)
qed

subsection \<open>Projected energy\<close>

lemma row2_dot:
  assumes "length row = 2"
  shows "sum_list (map2 (*) row [c, s]) = row ! 0 * c + row ! 1 * (s::real)"
proof -
  from assms obtain a b where "row = [a, b]"
    by (auto simp: length_Suc_conv numeral_2_eq_2)
  then show ?thesis by simp
qed

lemma matvec_points:
  assumes "list_all (\<lambda>row. length row = 2) P"
  shows "matvec P [c, s] = Inr (map (\<lambda>row. row ! 0 * c + row ! 1 * s) P)"
proof -
  have shape: "list_all (\<lambda>row. length row = length [c, s]) P"
    using assms by (auto simp: list_all_iff)
  have "map (\<lambda>row. sum_list (map2 (*) row [c, s])) P = map (\<lambda>row. row ! 0 * c + row ! 1 * s) P"
    using assms by (intro map_cong refl row2_dot) (simp add: list_all_iff)
  with shape show ?thesis
    unfolding matvec_def by simp
qed

text \<open>
  Claim C2. For an N-by-2 point set \<open>P\<close> and any real angle \<open>\<theta>\<close> the projected energy is
  the sum over the points of \<open>(P\<^sub>i \<cdot> [cos \<theta>, sin \<theta>])\<^sup>2\<close>; an angle outside \<open>[0, 2\<pi>)\<close>
  gives the value of the angle it is congruent to, and the empty point set gives 0.
\<close>

theorem update_energy_formula:
  assumes "list_all (\<lambda>row. length row = 2) P"
  shows "update_energy P \<theta> = Inr (\<Sum>row\<leftarrow>P. (row ! 0 * cos \<theta> + row ! 1 * sin \<theta>)\<^sup>2) \<and>
    update_energy P (\<theta> + 2 * pi * of_int k) = update_energy P \<theta> \<and>
    update_energy [] \<theta> = Inr 0"
proof -
  have E: "update_energy P a = Inr (\<Sum>row\<leftarrow>P. (row ! 0 * cos a + row ! 1 * sin a)\<^sup>2)" for a
    by (simp add: update_energy_def matvec_points [OF assms] comp_def)
  have c: "cos (\<theta> + 2 * pi * of_int k) = cos \<theta>"
    by (simp add: cos_add)
  have s: "sin (\<theta> + 2 * pi * of_int k) = sin \<theta>"
    by (simp add: sin_add)
  have empty: "update_energy [] \<theta> = Inr 0"
    by (simp add: update_energy_def matvec_def)
  from E [of \<theta>] E [of "\<theta> + 2 * pi * of_int k"] c s empty show ?thesis
    by simp
qed

theorem update_energy_formula_witness:
  "list_all (\<lambda>row. length row = 2) [[1, 0], [0, 2 :: real]] \<and>
   update_energy [[1, 0], [0, 2]] 0 = Inr 1 \<and>
   update_energy [[1, 0], [0, 2]] (0 + 2 * pi * of_int 3) = update_energy [[1, 0], [0, 2]] 0"
proof -
  have shape: "list_all (\<lambda>row. length row = 2) [[1, 0], [0, 2 :: real]]"
    by simp
  from update_energy_formula [OF shape, of 0 3] shape show ?thesis
    by simp
qed

subsection \<open>The normalised energy ratio\<close>

lemma row_norm_sq: "(row_norm row)\<^sup>2 = sum_list (map (\<lambda>x. x\<^sup>2) row)"
proof -
  have "0 \<le> sum_list (map (\<lambda>x. x\<^sup>2) row)"
    by (rule sum_list_nonneg) auto
  then show ?thesis
    by (simp add: row_norm_def)
qed

lemma total_energy_pos: "0 < total_energy samples"
proof -
  have "0 \<le> sum_list (map (\<lambda>row. (row_norm row)\<^sup>2) samples)"
    by (rule sum_list_nonneg) auto
  then show ?thesis
    by (simp add: total_energy_def)
qed

lemma total_energy_points:
  assumes "list_all (\<lambda>row. length row = 2) P"
  shows "total_energy P = (\<Sum>row\<leftarrow>P. (row ! 0)\<^sup>2 + (row ! 1)\<^sup>2) + 1 / 1000000"
proof -
  have "(row_norm row)\<^sup>2 = (row ! 0)\<^sup>2 + (row ! 1)\<^sup>2" if "row \<in> set P" for row
  proof -
    from that assms have "length row = 2"
      by (simp add: list_all_iff)
    then obtain a b where "row = [a, b]"
      by (auto simp: length_Suc_conv numeral_2_eq_2)
    then show ?thesis
      by (simp add: row_norm_sq)
  qed
  then have "map (\<lambda>row. (row_norm row)\<^sup>2) P = map (\<lambda>row. (row ! 0)\<^sup>2 + (row ! 1)\<^sup>2) P"
    by (intro map_cong refl)
  then show ?thesis
    by (simp only: total_energy_def)
qed

lemma np_clip_unit: "0 \<le> np_clip q 0 1 \<and> np_clip q 0 1 \<le> 1"
  by (simp add: np_clip_def)

text \<open>
  Claim C3. For every N-by-2 point set, the empty and the all-zero one included, and
  every angle, the energy ratio returns a value and raises nothing: the divisor is
  positive because of the added \<open>10\<^sup>-\<^sup>6\<close>, and the value is the projected energy over
  \<open>\<Sum>\<^sub>i \<parallel>P\<^sub>i\<parallel>\<^sup>2 + 10\<^sup>-\<^sup>6\<close>, clamped to \<open>[0, 1]\<close>.
\<close>

theorem energy_ratio_total:
  assumes "list_all (\<lambda>row. length row = 2) P"
  shows "\<exists>r. energy_ratio P \<theta> = Inr r \<and> 0 \<le> r \<and> r \<le> 1 \<and>
    r = np_clip ((\<Sum>row\<leftarrow>P. (row ! 0 * cos \<theta> + row ! 1 * sin \<theta>)\<^sup>2) /
                 ((\<Sum>row\<leftarrow>P. (row ! 0)\<^sup>2 + (row ! 1)\<^sup>2) + 1 / 1000000)) 0 1"
proof -
  let ?E = "\<Sum>row\<leftarrow>P. (row ! 0 * cos \<theta> + row ! 1 * sin \<theta>)\<^sup>2"
  have nz: "total_energy P \<noteq> 0"
    using total_energy_pos [of P] by simp
  have "energy_ratio P \<theta> = Inr (np_clip (?E / total_energy P) 0 1)"
    by (simp add: energy_ratio_def matvec_points [OF assms] py_div_def nz comp_def)
  then show ?thesis
    using np_clip_unit [of "?E / total_energy P"] by (simp add: total_energy_points [OF assms])
qed

theorem energy_ratio_total_witness:
  "list_all (\<lambda>row. length row = 2) [[0, 0], [0, 0 :: real]] \<and>
   list_all (\<lambda>row. length row = 2) ([] :: matrix) \<and>
   energy_ratio [[0, 0], [0, 0]] 0 = Inr 0 \<and> energy_ratio [] 0 = Inr 0"
proof -
  have zero: "list_all (\<lambda>row. length row = 2) [[0, 0], [0, 0 :: real]]"
    by simp
  have empty: "list_all (\<lambda>row. length row = 2) ([] :: matrix)"
    by simp
  from energy_ratio_total [OF zero, of 0] energy_ratio_total [OF empty, of 0] zero show ?thesis
    by (auto simp: np_clip_def)
qed

subsection \<open>The covariance matrix\<close>

lemma np_diag2: "np_diag [a, b] = [[a, 0], [0, b]]"
  by (simp add: np_diag_def upt_conv_Cons)

lemma create_pod_covariance_matrix_raw:
  "create_pod_covariance_matrix theta l1 l2 =
     Inr [[cos theta * l1 * cos theta + sin theta * l2 * sin theta,
           cos theta * l1 * sin theta - sin theta * l2 * cos theta],
          [sin theta * l1 * cos theta - cos theta * l2 * sin theta,
           sin theta * l1 * sin theta + cos theta * l2 * cos theta]]"
  by (simp add: create_pod_covariance_matrix_def np_diag2 matmul_def Let_def)

lemma create_pod_covariance_matrix_eval:
  "create_pod_covariance_matrix theta l1 l2 = Inr (covariance_closed_form theta l1 l2)"
proof -
  have "cos theta * l1 * cos theta + sin theta * l2 * sin theta
      = l1 * (cos theta)\<^sup>2 + l2 * (sin theta)\<^sup>2"
    by (simp add: power2_eq_square)
  moreover have "cos theta * l1 * sin theta - sin theta * l2 * cos theta
      = (l1 - l2) * cos theta * sin theta"
    by (simp add: left_diff_distrib)
  moreover have "sin theta * l1 * cos theta - cos theta * l2 * sin theta
      = (l1 - l2) * cos theta * sin theta"
    by (simp add: left_diff_distrib)
  moreover have "sin theta * l1 * sin theta + cos theta * l2 * cos theta
      = l1 * (sin theta)\<^sup>2 + l2 * (cos theta)\<^sup>2"
    by (simp add: power2_eq_square)
  ultimately show ?thesis
    unfolding create_pod_covariance_matrix_raw covariance_closed_form_def by simp
qed

lemma sum_below_2: "(\<Sum>k < (2::nat). f k) = f 0 + (f 1 :: real)"
  by (simp add: numeral_2_eq_2)

lemma closed_form_entries:
  assumes "i < 2" "j < 2"
  shows "covariance_closed_form theta l1 l2 ! i ! j = covariance_entry theta l1 l2 i j"
proof -
  from assms have "(i = 0 \<or> i = 1) \<and> (j = 0 \<or> j = 1)"
    by auto
  then show ?thesis
    by (auto simp: covariance_closed_form_def covariance_entry_def rotation_matrix_def sum_below_2
        power2_eq_square algebra_simps)
qed

lemma closed_form_square: "square_matrix 2 (covariance_closed_form theta l1 l2)"
  by (simp add: square_matrix_def covariance_closed_form_def)

lemma closed_form_symmetric: "symmetric (covariance_closed_form theta l1 l2)"
  by (auto simp: symmetric_def covariance_closed_form_def less_Suc_eq numeral_2_eq_2)

lemma vector2: 
  assumes "length x = 2" 
  obtains a b :: real where "x = [a, b]"
  using assms by (auto simp: length_Suc_conv numeral_2_eq_2)

lemma closed_form_quadratic:
  "quadratic_form (covariance_closed_form theta l1 l2) [a, b] =
     l1 * (cos theta * a + sin theta * b)\<^sup>2 + l2 * (cos theta * b - sin theta * a)\<^sup>2"
  by (simp add: quadratic_form_def covariance_closed_form_def sum_below_2
      power2_eq_square algebra_simps)

lemma closed_form_level_set:
  "quadratic_form_level_set (covariance_closed_form theta l1 l2) level x y =
     Inr (quadratic_form (covariance_closed_form theta l1 l2) [x, y] - level)"
  by (simp add: quadratic_form_level_set_def vecmat_def vdot_def quadratic_form_def
      covariance_closed_form_def sum_below_2 algebra_simps)

lemma closed_form_psd:
  assumes "0 \<le> l1" "0 \<le> l2"
  shows "positive_semidefinite (covariance_closed_form theta l1 l2)"
  unfolding positive_semidefinite_def
proof (intro allI impI)
  fix x :: vector
  assume "length x = length (covariance_closed_form theta l1 l2)"
  then have "length x = 2"
    by (simp add: covariance_closed_form_def)
  then obtain a b where x: "x = [a, b]"
    by (rule vector2)
  show "0 \<le> quadratic_form (covariance_closed_form theta l1 l2) x"
    unfolding x closed_form_quadratic using assms by simp
qed

text \<open>
  Claim C4. For every angle \<open>\<theta>\<close> the matrix returned by \<open>create_pod_covariance_matrix\<close>
  is the 2-by-2 matrix \<open>R(\<theta>) \<cdot> diag(\<lambda>\<^sub>1, \<lambda>\<^sub>2) \<cdot> R(\<theta>)\<^sup>T\<close> and is symmetric; when
  \<open>\<lambda>\<^sub>1\<close> and \<open>\<lambda>\<^sub>2\<close> are not negative it is positive semi-definite, so that its
  quadratic form, as \<open>quadratic_form_level_set\<close> computes it, is never negative.
\<close>

theorem create_pod_covariance_matrix_spd:
  "\<exists>C. create_pod_covariance_matrix theta lambda1 lambda2 = Inr C \<and>
     square_matrix 2 C \<and>
     (\<forall>i < 2. \<forall>j < 2. C ! i ! j = covariance_entry theta lambda1 lambda2 i j) \<and>
     symmetric C \<and>
     (0 \<le> lambda1 \<and> 0 \<le> lambda2 \<longrightarrow>
        positive_semidefinite C \<and>
        (\<forall>x y. \<exists>q. quadratic_form_level_set C 0 x y = Inr q \<and> 0 \<le> q))"
proof -
  let ?C = "covariance_closed_form theta lambda1 lambda2"
  have psd: "positive_semidefinite ?C \<and>
      (\<forall>x y. \<exists>q. quadratic_form_level_set ?C 0 x y = Inr q \<and> 0 \<le> q)"
    if nonneg: "0 \<le> lambda1 \<and> 0 \<le> lambda2"
  proof
    from nonneg show "positive_semidefinite ?C"
      by (simp add: closed_form_psd)
    show "\<forall>x y. \<exists>q. quadratic_form_level_set ?C 0 x y = Inr q \<and> 0 \<le> q"
      using nonneg by (simp add: closed_form_level_set closed_form_quadratic)
  qed
  have ent: "\<forall>i < 2. \<forall>j < 2. ?C ! i ! j = covariance_entry theta lambda1 lambda2 i j"
    by (simp add: closed_form_entries)
  have imp: "0 \<le> lambda1 \<and> 0 \<le> lambda2 \<longrightarrow>
      positive_semidefinite ?C \<and>
      (\<forall>x y. \<exists>q. quadratic_form_level_set ?C 0 x y = Inr q \<and> 0 \<le> q)"
    by (rule impI) (rule psd)
  show ?thesis
    by (rule exI [of _ ?C], intro conjI)
      (rule create_pod_covariance_matrix_eval closed_form_square ent closed_form_symmetric imp)+
qed

theorem create_pod_covariance_matrix_spd_witness:
  "(0::real) \<le> 4 \<and> (0::real) \<le> 1 \<and>
   create_pod_covariance_matrix 0 4 1 = Inr [[4, 0], [0, 1]] \<and>
   symmetric [[4, 0], [0, 1]] \<and> positive_semidefinite [[4, 0], [0, 1]]"
proof -
  have val: "create_pod_covariance_matrix 0 4 1 = Inr [[4, 0], [0, 1]]"
    by (simp add: create_pod_covariance_matrix_eval covariance_closed_form_def)
  have nonneg: "(0::real) \<le> 4 \<and> (0::real) \<le> 1"
    by simp
  from create_pod_covariance_matrix_spd [of 0 4 1] obtain C where
    C: "create_pod_covariance_matrix 0 4 1 = Inr C" and sym: "symmetric C"
    and psd: "(0::real) \<le> 4 \<and> (0::real) \<le> 1 \<longrightarrow> positive_semidefinite C"
    by blast
  from C val have "C = [[4, 0], [0, 1]]"
    by simp
  with sym psd nonneg val show ?thesis
    by simp
qed

subsection \<open>Linear interpolation of matrices and paths\<close>

lemma map2_map_map:
  "map2 h (map f xs) (map g ys) = map2 (\<lambda>x y. h (f x) (g y)) xs ys"
  by (induction xs arbitrary: ys) (auto simp: zip_Cons1 split: list.splits) 

lemma same_shape_np_scale: "same_shape (np_scale c a) (np_scale d b) = same_shape a b"
  by (simp add: same_shape_def np_scale_def comp_def)

lemma same_shape_lengths:
  assumes "same_shape a b"
  shows "length a = length b" and "i < length a \<Longrightarrow> length (a ! i) = length (b ! i)"
proof -
  from assms have eq: "map length a = map length b"
    by (simp add: same_shape_def)
  then show len: "length a = length b"
    by (rule map_eq_imp_length_eq)
  show "length (a ! i) = length (b ! i)" if "i < length a"
    using that len arg_cong [OF eq, of "\<lambda>xs. xs ! i"] by simp
qed

lemma lerp_matrix_same_shape:
  assumes "same_shape a b"
  shows "lerp_matrix a b alpha = Inr (map2 (map2 (blend alpha)) a b)"
proof -
  have "map2 (map2 (+)) (np_scale (1 - alpha) a) (np_scale alpha b)
      = map2 (\<lambda>r s. map2 (+) (map (\<lambda>x. (1 - alpha) * x) r) (map (\<lambda>x. alpha * x) s)) a b"
    unfolding np_scale_def by (rule map2_map_map)
  also have "\<dots> = map2 (map2 (blend alpha)) a b"
    unfolding map2_map_map blend_def ..
  finally show ?thesis
    using assms by (simp add: lerp_matrix_def np_add_def same_shape_np_scale)
qed

lemma square_same_shape:
  assumes "square_matrix n a" "square_matrix n b"
  shows "same_shape a b"
  unfolding same_shape_def
proof (rule nth_equalityI)
  show "length (map length a) = length (map length b)"
    using assms by (simp add: square_matrix_def)
  show "map length a ! i = map length b ! i" if "i < length (map length a)" for i
    using that assms by (simp add: square_matrix_def list_all_length)
qed

lemma square_entry:
  assumes "square_matrix n a" "square_matrix n b" "i < n" "j < n"
  shows "map2 (map2 f) a b ! i ! j = f (a ! i ! j) (b ! i ! j)"
  using assms by (simp add: square_matrix_def list_all_length)

lemma symmetric_blend:
  assumes "square_matrix n a" "square_matrix n b" "symmetric a" "symmetric b"
  shows "symmetric (map2 (map2 f) a b)"
proof -
  have len: "length (map2 (map2 f) a b) = n" "length a = n" "length b = n"
    using assms(1,2) by (simp_all add: square_matrix_def)
  show ?thesis
    unfolding symmetric_def len
  proof (intro allI impI)
    fix i j assume ij: "i < n" "j < n"
    have "map2 (map2 f) a b ! i ! j = f (a ! i ! j) (b ! i ! j)"
      by (rule square_entry [OF assms(1,2) ij])
    also have "\<dots> = f (a ! j ! i) (b ! j ! i)"
      using assms(3,4) ij by (simp add: symmetric_def len)
    also have "\<dots> = map2 (map2 f) a b ! j ! i"
      by (rule square_entry [OF assms(1,2) ij(2,1), symmetric])
    finally show "map2 (map2 f) a b ! i ! j = map2 (map2 f) a b ! j ! i" .
  qed
qed

lemma quadratic_form_blend:
  assumes "square_matrix n a" "square_matrix n b" "length x = n"
  shows "quadratic_form (map2 (map2 (blend alpha)) a b) x =
    (1 - alpha) * quadratic_form a x + alpha * quadratic_form b x"
proof -
  have "quadratic_form (map2 (map2 (blend alpha)) a b) x =
      (\<Sum>i < n. \<Sum>j < n. x ! i * blend alpha (a ! i ! j) (b ! i ! j) * x ! j)"
    unfolding quadratic_form_def assms(3)
    by (intro sum.cong refl) (simp add: square_entry [OF assms(1,2)])
  also have "\<dots> = (\<Sum>i < n. \<Sum>j < n.
      (1 - alpha) * (x ! i * a ! i ! j * x ! j) + alpha * (x ! i * b ! i ! j * x ! j))"
    by (intro sum.cong refl) (simp add: blend_def algebra_simps)
  also have "\<dots> = (1 - alpha) * (\<Sum>i < n. \<Sum>j < n. x ! i * a ! i ! j * x ! j) +
      alpha * (\<Sum>i < n. \<Sum>j < n. x ! i * b ! i ! j * x ! j)"
    by (simp only: sum.distrib sum_distrib_left)
  finally show ?thesis
    by (simp add: quadratic_form_def assms(3))
qed

lemma positive_definite_blend:
  assumes sq: "square_matrix n a" "square_matrix n b"
    and pd: "positive_definite a" "positive_definite b"
    and alpha: "0 \<le> alpha" "alpha \<le> 1"
  shows "positive_definite (map2 (map2 (blend alpha)) a b)"
  unfolding positive_definite_def
proof (intro allI impI)
  fix x :: vector
  assume x: "length x = length (map2 (map2 (blend alpha)) a b) \<and> (\<exists>i < length x. x ! i \<noteq> 0)"
  have len: "length a = n" "length b = n"
    using sq by (simp_all add: square_matrix_def)
  from x len have lx: "length x = n"
    by simp
  from x pd lx len have qa: "0 < quadratic_form a x" and qb: "0 < quadratic_form b x"
    by (simp_all add: positive_definite_def)
  have "0 < (1 - alpha) * quadratic_form a x + alpha * quadratic_form b x"
  proof (cases "alpha = 0")
    case True
    with qa show ?thesis by simp
  next
    case False
    with alpha have "0 < alpha * quadratic_form b x"
      using qb by simp
    moreover have "0 \<le> (1 - alpha) * quadratic_form a x"
      using alpha qa by simp
    ultimately show ?thesis by linarith
  qed
  then show "0 < quadratic_form (map2 (map2 (blend alpha)) a b) x"
    by (simp add: quadratic_form_blend [OF sq lx])
qed

lemma positive_definite_not_indefinite:
  assumes "positive_definite m"
  shows "\<not> indefinite m"
proof
  assume "indefinite m"
  then obtain x where x: "length x = length m" "quadratic_form m x < 0"
    by (auto simp: indefinite_def)
  show False
  proof (cases "\<exists>i < length x. x ! i \<noteq> 0")
    case True
    with assms x(1) have "0 < quadratic_form m x"
      by (simp add: positive_definite_def)
    with x(2) show False by simp
  next
    case False
    then have "quadratic_form m x = 0"
      by (simp add: quadratic_form_def)
    with x(2) show False by simp
  qed
qed


lemma same_shape_square:
  assumes "same_shape a b" "square_matrix n a"
  shows "square_matrix n b"
  using assms same_shape_lengths [OF assms(1)]
  by (simp add: square_matrix_def list_all_length)

lemma map2_left:
  assumes "length r = length s" "\<And>x y. f x y = x"
  shows "map2 f r s = r"
  using assms(1) by (induction r s rule: list_induct2) (simp_all add: assms(2))

lemma map2_right:
  assumes "length r = length s" "\<And>x y. f x y = y"
  shows "map2 f r s = s"
  using assms(1) by (induction r s rule: list_induct2) (simp_all add: assms(2))

lemma blend_left:
  assumes "same_shape a b" "\<And>x y. f x y = x"
  shows "map2 (map2 f) a b = a"
proof (rule nth_equalityI)
  show "length (map2 (map2 f) a b) = length a"
    using same_shape_lengths(1) [OF assms(1)] by simp
  show "map2 (map2 f) a b ! i = a ! i" if "i < length (map2 (map2 f) a b)" for i
  proof -
    from that have i: "i < length a" "i < length b"
      by simp_all
    then have "map2 (map2 f) a b ! i = map2 f (a ! i) (b ! i)"
      by simp
    also have "\<dots> = a ! i"
      using same_shape_lengths(2) [OF assms(1) i(1)] assms(2) by (rule map2_left)
    finally show ?thesis .
  qed
qed

lemma blend_right:
  assumes "same_shape a b" "\<And>x y. f x y = y"
  shows "map2 (map2 f) a b = b"
proof (rule nth_equalityI)
  show "length (map2 (map2 f) a b) = length b"
    using same_shape_lengths(1) [OF assms(1)] by simp
  show "map2 (map2 f) a b ! i = b ! i" if "i < length (map2 (map2 f) a b)" for i
  proof -
    from that have i: "i < length a" "i < length b"
      by simp_all
    then have "map2 (map2 f) a b ! i = map2 f (a ! i) (b ! i)"
      by simp
    also have "\<dots> = b ! i"
      using same_shape_lengths(2) [OF assms(1) i(1)] assms(2) by (rule map2_right)
    finally show ?thesis .
  qed
qed

lemma quadratic_form_diag2: "quadratic_form [[p, 0], [0, q]] [u, v] = p * u\<^sup>2 + q * v\<^sup>2"
  by (simp add: quadratic_form_def sum_below_2 power2_eq_square)

lemma square_diag2: "square_matrix 2 [[p, 0], [0, q]]"
  by (simp add: square_matrix_def)

lemma symmetric_diag2: "symmetric [[p, 0], [0, q]]"
  by (auto simp: symmetric_def less_Suc_eq numeral_2_eq_2)

lemma positive_definite_diag2:
  assumes "0 < p" "0 < q"
  shows "positive_definite [[p, 0], [0, q]]"
  unfolding positive_definite_def
proof (intro allI impI)
  fix x :: vector
  assume x: "length x = length [[p, 0], [0, q]] \<and> (\<exists>i < length x. x ! i \<noteq> 0)"
  then have "length x = 2"
    by simp
  then obtain u v where uv: "x = [u, v]"
    by (rule vector2)
  with x have "u \<noteq> 0 \<or> v \<noteq> 0"
    by (auto simp: less_Suc_eq)
  then have "0 < p * u\<^sup>2 + q * v\<^sup>2"
  proof
    assume "u \<noteq> 0"
    with assms have "0 < p * u\<^sup>2" "0 \<le> q * v\<^sup>2"
      by simp_all
    then show ?thesis by linarith
  next
    assume "v \<noteq> 0"
    with assms have "0 < q * v\<^sup>2" "0 \<le> p * u\<^sup>2"
      by simp_all
    then show ?thesis by linarith
  qed
  then show "0 < quadratic_form [[p, 0], [0, q]] x"
    by (simp add: uv quadratic_form_diag2)
qed

lemma indefinite_diag2:
  assumes "q < 0" "0 < p"
  shows "indefinite [[p, 0], [0, q]]"
  unfolding indefinite_def
proof (intro exI conjI)
  show "length [0, 1 :: real] = length [[p, 0], [0, q]]"
    by simp
  show "length [1, 0 :: real] = length [[p, 0], [0, q]]"
    by simp
  show "quadratic_form [[p, 0], [0, q]] [0, 1] < 0"
    using assms by (simp add: quadratic_form_diag2)
  show "0 < quadratic_form [[p, 0], [0, q]] [1, 0]"
    using assms by (simp add: quadratic_form_diag2)
qed

lemma lerp_matrix_extrapolated:
  "lerp_matrix [[1, 0], [0, 3]] [[1, 0], [0, 1]] 2 = Inr [[1, 0], [0, - 1]]"
  by (simp add: lerp_matrix_def np_add_def np_scale_def same_shape_def)

text \<open>
  Claim C5, as amended. For matrices of one shape and every blend factor \<open>\<alpha>\<close>,
  \<open>lerp_matrix\<close> returns \<open>(1 - \<alpha>) \<cdot> Q\<^sub>a + \<alpha> \<cdot> Q\<^sub>b\<close> entry by entry; the blend of two
  symmetric matrices is symmetric; for \<open>0 \<le> \<alpha> \<le> 1\<close> the blend of two positive-definite
  matrices is positive-definite. Positive-definiteness is not guaranteed outside that
  range: at \<open>\<alpha> = 2\<close> two symmetric positive-definite matrices blend to an indefinite one.
\<close>

theorem lerp_matrix_blend:
  assumes "same_shape mat_a mat_b"
  shows "\<exists>m. lerp_matrix mat_a mat_b alpha = Inr m \<and>
      m = map2 (map2 (blend alpha)) mat_a mat_b \<and>
      (square_matrix (length mat_a) mat_a \<and> symmetric mat_a \<and> symmetric mat_b \<longrightarrow>
         symmetric m) \<and>
      (square_matrix (length mat_a) mat_a \<and> positive_definite mat_a \<and>
         positive_definite mat_b \<and> 0 \<le> alpha \<and> alpha \<le> 1 \<longrightarrow> positive_definite m) \<and>
      (\<exists>a b e. square_matrix 2 a \<and> square_matrix 2 b \<and> symmetric a \<and> symmetric b \<and>
           positive_definite a \<and> positive_definite b \<and>
           lerp_matrix a b 2 = Inr e \<and> indefinite e)"
proof -
  let ?m = "map2 (map2 (blend alpha)) mat_a mat_b"
  have run: "lerp_matrix mat_a mat_b alpha = Inr ?m"
    by (rule lerp_matrix_same_shape [OF assms])
  have sym: "square_matrix (length mat_a) mat_a \<and> symmetric mat_a \<and> symmetric mat_b \<longrightarrow>
      symmetric ?m"
    using same_shape_square [OF assms] symmetric_blend by blast
  have pd: "square_matrix (length mat_a) mat_a \<and> positive_definite mat_a \<and>
      positive_definite mat_b \<and> 0 \<le> alpha \<and> alpha \<le> 1 \<longrightarrow> positive_definite ?m"
    using same_shape_square [OF assms] positive_definite_blend by blast
  have out: "\<exists>a b e. square_matrix 2 a \<and> square_matrix 2 b \<and> symmetric a \<and> symmetric b \<and>
      positive_definite a \<and> positive_definite b \<and> lerp_matrix a b 2 = Inr e \<and> indefinite e"
  proof (intro exI conjI)
    show "lerp_matrix [[1, 0], [0, 3]] [[1, 0], [0, 1]] 2 = Inr [[1, 0], [0, - 1]]"
      by (rule lerp_matrix_extrapolated)
    show "indefinite [[1, 0], [0, - 1]]"
      by (rule indefinite_diag2) simp_all
  qed (simp_all add: square_diag2 symmetric_diag2 positive_definite_diag2)
  show ?thesis
    by (rule exI [of _ ?m], intro conjI) (rule run refl sym pd out)+
qed

theorem lerp_matrix_blend_witness:
  "same_shape [[2, 0], [0, 1]] [[1, 0], [0, 3]] \<and>
   square_matrix (length [[2, 0], [0, 1 :: real]]) [[2, 0], [0, 1]] \<and>
   symmetric [[2, 0], [0, 1]] \<and> symmetric [[1, 0], [0, 3]] \<and>
   positive_definite [[2, 0], [0, 1]] \<and> positive_definite [[1, 0], [0, 3]] \<and>
   lerp_matrix [[2, 0], [0, 1]] [[1, 0], [0, 3]] (1 / 2) = Inr [[3 / 2, 0], [0, 2]] \<and>
   symmetric [[3 / 2, 0], [0, 2]] \<and> positive_definite [[3 / 2, 0], [0, 2]]"
proof -
  let ?a = "[[2, 0], [0, 1 :: real]]" and ?b = "[[1, 0], [0, 3 :: real]]"
  have shape: "same_shape ?a ?b"
    by (simp add: same_shape_def)
  have sq: "square_matrix (length ?a) ?a"
    by (simp add: square_matrix_def)
  have sym: "symmetric ?a" "symmetric ?b"
    by (rule symmetric_diag2)+
  have pd: "positive_definite ?a" "positive_definite ?b"
    by (rule positive_definite_diag2; simp)+
  have val: "map2 (map2 (blend (1 / 2))) ?a ?b = [[3 / 2, 0], [0, 2]]"
    by (simp add: blend_def)
  from lerp_matrix_blend [OF shape, of "1 / 2"] obtain m where
    m: "lerp_matrix ?a ?b (1 / 2) = Inr m" "m = map2 (map2 (blend (1 / 2))) ?a ?b"
    and s: "square_matrix (length ?a) ?a \<and> symmetric ?a \<and> symmetric ?b \<longrightarrow> symmetric m"
    and p: "square_matrix (length ?a) ?a \<and> positive_definite ?a \<and> positive_definite ?b \<and>
      0 \<le> (1 / 2 :: real) \<and> (1 / 2 :: real) \<le> 1 \<longrightarrow> positive_definite m"
    by blast
  have half: "0 \<le> (1 / 2 :: real) \<and> (1 / 2 :: real) \<le> 1"
    by simp
  from m(2) val have mv: "m = [[3 / 2, 0], [0, 2]]"
    by (simp only:)
  from s sq sym have "symmetric m"
    by blast
  moreover from p sq pd half have "positive_definite m"
    by blast
  ultimately have res: "lerp_matrix ?a ?b (1 / 2) = Inr [[3 / 2, 0], [0, 2]] \<and>
      symmetric [[3 / 2, 0], [0, 2]] \<and> positive_definite [[3 / 2, 0], [0, 2]]"
    using m(1) unfolding mv by (intro conjI)
  show ?thesis
    by (intro conjI) (rule shape sq sym pd res [THEN conjunct1]
      res [THEN conjunct2, THEN conjunct1] res [THEN conjunct2, THEN conjunct2])+
qed

text \<open>
  The claim as it was stated asks for symmetric positive-definite \<open>Q\<^sub>a\<close>, \<open>Q\<^sub>b\<close> and an
  \<open>\<alpha>\<close> strictly between 0 and 1 whose blend is indefinite. There are none.
\<close>

theorem lerp_matrix_indefinite_counterexample:
  "\<not> (\<exists>a b alpha n m. square_matrix n a \<and> square_matrix n b \<and> symmetric a \<and> symmetric b \<and>
       positive_definite a \<and> positive_definite b \<and> 0 < alpha \<and> alpha < 1 \<and>
       lerp_matrix a b alpha = Inr m \<and> indefinite m)"
proof
  assume "\<exists>a b alpha n m. square_matrix n a \<and> square_matrix n b \<and> symmetric a \<and> symmetric b \<and>
       positive_definite a \<and> positive_definite b \<and> 0 < alpha \<and> alpha < 1 \<and>
       lerp_matrix a b alpha = Inr m \<and> indefinite m"
  then obtain a b alpha n m where sq: "square_matrix n a" "square_matrix n b"
    and pd: "positive_definite a" "positive_definite b"
    and alpha: "0 < alpha" "alpha < 1"
    and run: "lerp_matrix a b alpha = Inr m" and ind: "indefinite m"
    by blast
  from run have "m = map2 (map2 (blend alpha)) a b"
    by (simp add: lerp_matrix_same_shape [OF square_same_shape [OF sq]])
  moreover have "positive_definite (map2 (map2 (blend alpha)) a b)"
    using sq pd alpha by (intro positive_definite_blend) simp_all
  ultimately have "\<not> indefinite m"
    by (simp add: positive_definite_not_indefinite)
  with ind show False by simp
qed

text \<open>
  Claim C8. At blend factor 0 the interpolated path is the first path and at 1 it is
  the second, at every parameter; for matrices of one shape \<open>lerp_matrix\<close> returns the
  first matrix at 0 and the second at 1.
\<close>

theorem lerp_endpoints:
  "lerp_path path_a path_b 0 t = path_a t \<and>
   lerp_path path_a path_b 1 t = path_b t \<and>
   (same_shape mat_a mat_b \<longrightarrow>
      lerp_matrix mat_a mat_b 0 = Inr mat_a \<and> lerp_matrix mat_a mat_b 1 = Inr mat_b)"
proof (intro conjI impI)
  show "lerp_path path_a path_b 0 t = path_a t"
    by (cases "path_a t"; cases "path_b t") (simp add: lerp_path_def scale3_def add3_def)
  show "lerp_path path_a path_b 1 t = path_b t"
    by (cases "path_a t"; cases "path_b t") (simp add: lerp_path_def scale3_def add3_def)
next
  assume shape: "same_shape mat_a mat_b"
  show "lerp_matrix mat_a mat_b 0 = Inr mat_a"
    by (simp add: lerp_matrix_same_shape [OF shape] blend_left [OF shape] blend_def)
  show "lerp_matrix mat_a mat_b 1 = Inr mat_b"
    by (simp add: lerp_matrix_same_shape [OF shape] blend_right [OF shape] blend_def)
qed

theorem lerp_endpoints_witness:
  "same_shape [[1, 2], [3, 4]] [[5, 6], [7, 8]] \<and>
   lerp_matrix [[1, 2], [3, 4]] [[5, 6], [7, 8]] 0 = Inr [[1, 2], [3, 4]] \<and>
   lerp_matrix [[1, 2], [3, 4]] [[5, 6], [7, 8]] 1 = Inr [[5, 6], [7, 8]] \<and>
   lerp_path (\<lambda>t. (t, 2 * t, 0)) (\<lambda>t. (1, t, 3)) 0 5 = (5, 10, 0) \<and>
   lerp_path (\<lambda>t. (t, 2 * t, 0)) (\<lambda>t. (1, t, 3)) 1 5 = (1, 5, 3)"
proof -
  have shape: "same_shape [[1, 2], [3, 4]] [[5, 6], [7, 8 :: real]]"
    by (simp add: same_shape_def)
  from lerp_endpoints [of "\<lambda>t. (t, 2 * t, 0)" "\<lambda>t. (1, t, 3)" 5 "[[1, 2], [3, 4]]" "[[5, 6], [7, 8]]"]
    shape show ?thesis
    by simp
qed

subsection \<open>The easing curve\<close>

lemma smooth_step_value:
  assumes "edge0 \<noteq> edge1"
  shows "smooth_step t edge0 edge1 = Inr (hermite (np_clip ((t - edge0) / (edge1 - edge0)) 0 1))"
  using assms
  by (simp add: smooth_step_def py_div_def hermite_def Let_def power2_eq_square power3_eq_cube
      right_diff_distrib)

lemma smooth_step_zero_width: "smooth_step t edge edge = Inl ZeroDivisionError"
  by (simp add: smooth_step_def py_div_def)

lemma hermite_mono:
  assumes "0 \<le> a" "a \<le> b" "b \<le> 1"
  shows "hermite a \<le> hermite b"
proof -
  have aa: "a * a \<le> a" and bb: "b * b \<le> b" and ab: "a * b \<le> a" and ba: "a * b \<le> b"
    using assms by (simp_all add: mult_left_le mult_left_le_one_le mult_right_le_one_le)
  have "hermite b - hermite a = (b - a) * (3 * (a + b) - 2 * (a * a + a * b + b * b))"
    by (simp add: hermite_def power2_eq_square power3_eq_cube algebra_simps)
  moreover have "0 \<le> 3 * (a + b) - 2 * (a * a + a * b + b * b)"
    using aa bb ab ba by (simp add: algebra_simps)
  then have "0 \<le> (b - a) * (3 * (a + b) - 2 * (a * a + a * b + b * b))"
    using assms(2) by (intro mult_nonneg_nonneg) simp_all
  ultimately show ?thesis
    by linarith
qed

lemma np_clip_mono: "p \<le> q \<Longrightarrow> np_clip p 0 1 \<le> np_clip q 0 1"
  by (simp add: np_clip_def min_def max_def)

lemma np_clip_range: "0 \<le> np_clip q 0 1" "np_clip q 0 1 \<le> 1"
  by (simp_all add: np_clip_def)

lemma np_clip_inside: "0 \<le> q \<Longrightarrow> q \<le> 1 \<Longrightarrow> np_clip q 0 1 = q"
  by (simp add: np_clip_def)

lemma np_clip_below: "q \<le> 0 \<Longrightarrow> np_clip q 0 1 = 0"
  by (simp add: np_clip_def)

lemma np_clip_above: "1 \<le> q \<Longrightarrow> np_clip q 0 1 = 1"
  by (simp add: np_clip_def)

text \<open>
  Claim C7. For \<open>edge0 < edge1\<close>, \<open>smooth_step\<close> is 0 at \<open>edge0\<close> and 1 at \<open>edge1\<close>, never
  decreases (on the interval and outside it), is 0 below \<open>edge0\<close> and 1 above \<open>edge1\<close>,
  and on the interval is \<open>3s\<^sup>2 - 2s\<^sup>3\<close> of \<open>s = (t - edge0) / (edge1 - edge0)\<close>.
\<close>

theorem smooth_step_boundary:
  assumes "edge0 < edge1"
  shows "smooth_step edge0 edge0 edge1 = Inr 0 \<and>
    smooth_step edge1 edge0 edge1 = Inr 1 \<and>
    (t \<le> u \<longrightarrow>
       (\<exists>a b. smooth_step t edge0 edge1 = Inr a \<and> smooth_step u edge0 edge1 = Inr b \<and> a \<le> b)) \<and>
    (t < edge0 \<longrightarrow> smooth_step t edge0 edge1 = Inr 0) \<and>
    (edge1 < t \<longrightarrow> smooth_step t edge0 edge1 = Inr 1) \<and>
    (edge0 \<le> t \<and> t \<le> edge1 \<longrightarrow>
       smooth_step t edge0 edge1 =
         Inr (3 * ((t - edge0) / (edge1 - edge0))\<^sup>2 - 2 * ((t - edge0) / (edge1 - edge0)) ^ 3))"
proof -
  from assms have ne: "edge0 \<noteq> edge1" and w: "0 < edge1 - edge0"
    by simp_all
  note val = smooth_step_value [OF ne]
  let ?s = "\<lambda>t. (t - edge0) / (edge1 - edge0)"
  have at0: "smooth_step edge0 edge0 edge1 = Inr 0"
    by (simp add: val np_clip_def hermite_def)
  have at1: "smooth_step edge1 edge0 edge1 = Inr 1"
    using w by (simp add: val np_clip_def hermite_def)
  have mono: "t \<le> u \<longrightarrow>
      (\<exists>a b. smooth_step t edge0 edge1 = Inr a \<and> smooth_step u edge0 edge1 = Inr b \<and> a \<le> b)"
  proof
    assume "t \<le> u"
    with w have "?s t \<le> ?s u"
      by (simp add: divide_right_mono)
    then have "hermite (np_clip (?s t) 0 1) \<le> hermite (np_clip (?s u) 0 1)"
      by (intro hermite_mono np_clip_mono np_clip_range)
    then show "\<exists>a b. smooth_step t edge0 edge1 = Inr a \<and> smooth_step u edge0 edge1 = Inr b \<and> a \<le> b"
      by (simp add: val)
  qed
  have below: "t < edge0 \<longrightarrow> smooth_step t edge0 edge1 = Inr 0"
  proof
    assume "t < edge0"
    with w have "?s t \<le> 0"
      by (simp add: divide_le_0_iff)
    then show "smooth_step t edge0 edge1 = Inr 0"
      by (simp add: val np_clip_below hermite_def)
  qed
  have above: "edge1 < t \<longrightarrow> smooth_step t edge0 edge1 = Inr 1"
  proof
    assume "edge1 < t"
    with w have "1 \<le> ?s t"
      by (simp add: le_divide_eq)
    then show "smooth_step t edge0 edge1 = Inr 1"
      by (simp add: val np_clip_above hermite_def)
  qed
  have inside: "edge0 \<le> t \<and> t \<le> edge1 \<longrightarrow>
      smooth_step t edge0 edge1 = Inr (3 * (?s t)\<^sup>2 - 2 * (?s t) ^ 3)"
  proof
    assume "edge0 \<le> t \<and> t \<le> edge1"
    with w have "0 \<le> ?s t" "?s t \<le> 1"
      by (simp_all add: divide_le_eq)
    then show "smooth_step t edge0 edge1 = Inr (3 * (?s t)\<^sup>2 - 2 * (?s t) ^ 3)"
      by (simp add: val np_clip_inside hermite_def)
  qed
  show ?thesis
    by (intro conjI) (rule at0 at1 mono below above inside)+
qed

theorem smooth_step_boundary_witness:
  "(0::real) < 2 \<and> smooth_step 0 0 2 = Inr 0 \<and> smooth_step 2 0 2 = Inr 1 \<and>
   smooth_step (-1) 0 2 = Inr 0 \<and> smooth_step 3 0 2 = Inr 1 \<and> smooth_step 1 0 2 = Inr (1 / 2)"
proof -
  have e: "(0::real) < 2"
    by simp
  from smooth_step_boundary [OF e, of "-1" 0] smooth_step_boundary [OF e, of 3 3]
    smooth_step_boundary [OF e, of 1 1] e
  show ?thesis
    by (simp add: power2_eq_square power3_eq_cube)
qed

subsection \<open>The central-difference gradient\<close>

text \<open>
  Claim C9. \<open>numerical_gradient_2d\<close> does not look at the step \<open>h\<close> before dividing: for
  \<open>h \<noteq> 0\<close> it returns the two central differences over \<open>2h\<close> and a zero third
  component, for any function and point; with \<open>h = 0\<close> it reaches a division by zero.
\<close>

theorem numerical_gradient_2d_step:
  "(h \<noteq> 0 \<longrightarrow>
      numerical_gradient_2d func x y h =
        Inr ((func (x + h) y - func (x - h) y) / (2 * h),
             (func x (y + h) - func x (y - h)) / (2 * h), 0)) \<and>
   numerical_gradient_2d func x y 0 = Inl ZeroDivisionError"
  by (simp add: numerical_gradient_2d_def py_div_def)

theorem numerical_gradient_2d_step_witness:
  "(1 / 2 :: real) \<noteq> 0 \<and>
   numerical_gradient_2d (\<lambda>x y. x * x + 3 * y) 1 2 (1 / 2) = Inr (2, 3, 0) \<and>
   numerical_gradient_2d (\<lambda>x y. x * x + 3 * y) 1 2 0 = Inl ZeroDivisionError"
proof -
  have h: "(1 / 2 :: real) \<noteq> 0"
    by simp
  from numerical_gradient_2d_step [of "1 / 2" "\<lambda>x y. x * x + 3 * y" 1 2] h show ?thesis
    by (simp add: field_simps)
qed

subsection \<open>The analytic gradient and the rendered surface\<close>

lemma gaussian_gradient_default:
  "gaussian_gradient x y (0, 0) 3.0 2.0 0.8 =
     Inr (- (0.8 * exp (- (x\<^sup>2 / 18 + y\<^sup>2 / 8))) * x / 9,
          - (0.8 * exp (- (x\<^sup>2 / 18 + y\<^sup>2 / 8))) * y / 4, 0)"
  by (simp add: gaussian_gradient_def py_div_def Let_def)

lemma composite_gradient_eval:
  "composite_gradient x y = Inr (gradient_x x y, gradient_y x y, 0)"
  unfolding composite_gradient_def gaussian_gradient_default
  by (simp add: add3_def gradient_x_def gradient_y_def)

lemma composite_field_alt:
  "composite_field x y =
     0.8 * exp (- (x\<^sup>2 / 18 + y\<^sup>2 / 8)) + 0.4 * sin (0.8 * x) * cos (0.6 * y)"
  by (simp add: composite_field_def)

lemma DERIV_composite_field_x:
  "DERIV (\<lambda>u. composite_field u y) x :> gradient_x x y"
  unfolding composite_field_alt gradient_x_def
  by (auto intro!: derivative_eq_intros simp: mult_ac)

lemma DERIV_composite_field_y:
  "DERIV (\<lambda>v. composite_field x v) y :> gradient_y x y"
  unfolding composite_field_alt gradient_y_def
  by (auto intro!: derivative_eq_intros simp: mult_ac)


lemma DERIV_composite_field_along:
  "DERIV (\<lambda>s. composite_field (x + s * a) (y + s * b)) 0 :>
     gradient_x x y * a + gradient_y x y * b"
  unfolding composite_field_alt gradient_x_def gradient_y_def
  by (auto intro!: derivative_eq_intros simp: field_simps)

lemma surface_height_alt:
  "surface_height u v =
     0.8 * exp (- (u\<^sup>2 / 9 + v\<^sup>2 / 4)) + 0.4 * sin (0.8 * u) * cos (0.6 * v)"
  by (simp add: surface_height_def surface_func_def Let_def)

lemma DERIV_surface_height_x:
  "DERIV (\<lambda>u. surface_height u v) u :> surface_gradient_x u v"
  unfolding surface_height_alt surface_gradient_x_def
  by (auto intro!: derivative_eq_intros simp: mult_ac)

lemma DERIV_surface_height_y:
  "DERIV (\<lambda>v. surface_height u v) v :> surface_gradient_y u v"
  unfolding surface_height_alt surface_gradient_y_def
  by (auto intro!: derivative_eq_intros simp: mult_ac)

lemma exp_eighteenth: "exp (- (1 / 18)) < 2 * exp (- (1 / 9 :: real))"
proof -
  have "exp (1 / 18 :: real) \<le> 1 + 2 * (1 / 18)"
    by (rule real_exp_bound_lemma) simp_all
  then have "exp (1 / 18 :: real) < 2"
    by simp
  moreover have "exp (- (1 / 18 :: real)) = exp (1 / 18) * exp (- (1 / 9))"
    by (simp flip: exp_add)
  ultimately show ?thesis
    by simp
qed

lemma exp_ninth: "exp (- (1 / 9 :: real)) < exp (- (1 / 18))"
  by simp

lemma gradients_differ: "gradient_x 1 0 \<noteq> surface_gradient_x 1 0"
proof -
  have "surface_gradient_x 1 0 - gradient_x 1 0
      = (8 / 90) * (exp (- (1 / 18)) - 2 * exp (- (1 / 9)))"
    by (simp add: surface_gradient_x_def gradient_x_def algebra_simps)
  with exp_eighteenth show ?thesis
    by auto
qed

lemma fields_differ: "composite_field 1 0 \<noteq> surface_height 1 0"
  using exp_ninth by (simp add: composite_field_alt surface_height_alt)

text \<open>
  Claim C6. At every point \<open>(x, y)\<close> the vector returned by \<open>composite_gradient\<close> is
  \<open>[\<partial>f/\<partial>x, \<partial>f/\<partial>y, 0]\<close> for the field
  \<open>f(x, y) = 0.8 exp(-x\<^sup>2/(2\<cdot>3\<^sup>2) - y\<^sup>2/(2\<cdot>2\<^sup>2)) + 0.4 sin(0.8x) cos(0.6y)\<close>, and the
  derivative of \<open>f\<close> along the returned vector is not negative: the vector points
  toward increasing \<open>f\<close>.
\<close>

theorem composite_gradient_is_gradient:
  "\<exists>gx gy. composite_gradient x y = Inr (gx, gy, 0) \<and>
     DERIV (\<lambda>u. composite_field u y) x :> gx \<and>
     DERIV (\<lambda>v. composite_field x v) y :> gy \<and>
     DERIV (\<lambda>s. composite_field (x + s * gx) (y + s * gy)) 0 :> gx\<^sup>2 + gy\<^sup>2 \<and>
     0 \<le> gx\<^sup>2 + gy\<^sup>2"
proof (intro exI conjI)
  show "composite_gradient x y = Inr (gradient_x x y, gradient_y x y, 0)"
    by (rule composite_gradient_eval)
  show "DERIV (\<lambda>u. composite_field u y) x :> gradient_x x y"
    by (rule DERIV_composite_field_x)
  show "DERIV (\<lambda>v. composite_field x v) y :> gradient_y x y"
    by (rule DERIV_composite_field_y)
  show "DERIV (\<lambda>s. composite_field (x + s * gradient_x x y) (y + s * gradient_y x y)) 0 :>
      (gradient_x x y)\<^sup>2 + (gradient_y x y)\<^sup>2"
    using DERIV_composite_field_along [of x "gradient_x x y" y "gradient_y x y"]
    by (simp add: power2_eq_square)
  show "0 \<le> (gradient_x x y)\<^sup>2 + (gradient_y x y)\<^sup>2"
    by simp
qed

text \<open>
  Claim C10. \<open>composite_gradient\<close> is the gradient of \<open>composite_field\<close>, whose
  Gaussian has the exponent \<open>-x\<^sup>2/18 - y\<^sup>2/8\<close>; the surface that is rendered has the
  height \<open>0.8 exp(-(u\<^sup>2/9 + v\<^sup>2/4)) + 0.4 sin(0.8u) cos(0.6v)\<close>, a different field, and at
  the point \<open>(1, 0)\<close> the vector returned by \<open>composite_gradient\<close> is not the gradient of
  that height.
\<close>

theorem composite_gradient_not_surface_gradient:
  "(\<forall>x y. \<exists>gx gy. composite_gradient x y = Inr (gx, gy, 0) \<and>
      DERIV (\<lambda>u. composite_field u y) x :> gx \<and> DERIV (\<lambda>v. composite_field x v) y :> gy) \<and>
   (\<forall>u v. surface_func u v =
      (u, v, 0.8 * exp (- (u\<^sup>2 / 9 + v\<^sup>2 / 4)) + 0.4 * sin (0.8 * u) * cos (0.6 * v))) \<and>
   composite_field 1 0 \<noteq> surface_height 1 0 \<and>
   (\<exists>gx gy hx hy. composite_gradient 1 0 = Inr (gx, gy, 0) \<and>
      DERIV (\<lambda>u. surface_height u 0) 1 :> hx \<and> DERIV (\<lambda>v. surface_height 1 v) 0 :> hy \<and>
      (gx, gy, 0) \<noteq> (hx, hy, 0 :: real))"
proof (intro conjI allI)
  show "\<exists>gx gy. composite_gradient x y = Inr (gx, gy, 0) \<and>
      DERIV (\<lambda>u. composite_field u y) x :> gx \<and> DERIV (\<lambda>v. composite_field x v) y :> gy" for x y
    using composite_gradient_eval DERIV_composite_field_x DERIV_composite_field_y by blast
  show "surface_func u v =
      (u, v, 0.8 * exp (- (u\<^sup>2 / 9 + v\<^sup>2 / 4)) + 0.4 * sin (0.8 * u) * cos (0.6 * v))" for u v
    by (simp add: surface_func_def Let_def)
  show "composite_field 1 0 \<noteq> surface_height 1 0"
    by (rule fields_differ)
  have "(gradient_x 1 0, gradient_y 1 0, 0) \<noteq> (surface_gradient_x 1 0, surface_gradient_y 1 0, 0 :: real)"
    using gradients_differ by simp
  then show "\<exists>gx gy hx hy. composite_gradient 1 0 = Inr (gx, gy, 0) \<and>
      DERIV (\<lambda>u. surface_height u 0) 1 :> hx \<and> DERIV (\<lambda>v. surface_height 1 v) 0 :> hy \<and>
      (gx, gy, 0) \<noteq> (hx, hy, 0 :: real)"
    using composite_gradient_eval [of 1 0] DERIV_surface_height_x [of 0 1]
      DERIV_surface_height_y [of 1 0] by blast
qed

end
